theory Spec2Isabelle
  imports Complex_Main "HOL-Library.Word"
begin

section \<open>The Tauri client of the renderer (src/renderer/src/lib/tauri-client.ts)\<close>

subsection \<open>JavaScript strings\<close>

text \<open>
  A JavaScript string is a sequence of 16-bit code units. Source literals are ASCII and
  are written with \<open>js\<close>, which maps every character of an Isabelle string literal to
  the code unit of the same number.
\<close>

type_synonym jschar = "16 word"

type_synonym jsstring = "jschar list"

definition js :: "string \<Rightarrow> jsstring" where
  "js s = map (\<lambda>c. of_nat (of_char c)) s"

definition underscore :: jschar where
  "underscore = 0x5F"

text \<open>The character class \<^verbatim>\<open>[A-Z]\<close> of the regular expression: the code units 0x41 to 0x5A.\<close>

definition isAZ :: "jschar \<Rightarrow> bool" where
  "isAZ c \<longleftrightarrow> 0x41 \<le> c \<and> c \<le> 0x5A"

text \<open>The lowercase ASCII letters, the code units 0x61 to 0x7A.\<close>

definition isaz :: "jschar \<Rightarrow> bool" where
  "isaz c \<longleftrightarrow> 0x61 \<le> c \<and> c \<le> 0x7A"

text \<open>
  \<^verbatim>\<open>letter.toLowerCase()\<close> is only ever applied to a one-character match of \<^verbatim>\<open>[A-Z]\<close>,
  where it yields the letter 0x20 further up; every other code unit is left as it is
  here (the source never calls it on one).
\<close>

definition toLowerCase :: "jschar \<Rightarrow> jschar" where
  "toLowerCase c = (if isAZ c then c + 0x20 else c)"

subsection \<open>The two calls of \<^verbatim>\<open>String.prototype.replace\<close>\<close>

text \<open>
  \<^verbatim>\<open>str.replace(/[A-Z]/g, f)\<close>: the pattern matches exactly one code unit, so the
  global replacement scans the string from the left and puts \<open>f c\<close> in place of every
  code unit \<open>c\<close> of the class; the result of \<open>f\<close> is inserted literally and is not
  scanned again.
\<close>

fun replace_class_g :: "(jschar \<Rightarrow> bool) \<Rightarrow> (jschar \<Rightarrow> jsstring) \<Rightarrow> jsstring \<Rightarrow> jsstring" where
  "replace_class_g p f [] = []"
| "replace_class_g p f (c # cs) = (if p c then f c else [c]) @ replace_class_g p f cs"

text \<open>
  \<^verbatim>\<open>str.replace(/^_/, '')\<close>: without the \<^verbatim>\<open>g\<close> and \<^verbatim>\<open>m\<close> flags the pattern matches at
  most once, at index 0; a match is replaced by the empty string.
\<close>

fun replace_leading_underscore :: "jsstring \<Rightarrow> jsstring" where
  "replace_leading_underscore [] = []"
| "replace_leading_underscore (c # cs) = (if c = underscore then cs else c # cs)"

text \<open>
  \<^verbatim>\<open>function toSnakeCase(str) {
    return str.replace(/[A-Z]/g, letter => `_${letter.toLowerCase()}`).replace(/^_/, '');
  }\<close>
\<close>

definition toSnakeCase :: "jsstring \<Rightarrow> jsstring" where
  "toSnakeCase str =
     replace_leading_underscore
       (replace_class_g isAZ (\<lambda>letter. underscore # [toLowerCase letter]) str)"

text \<open>
  The claim's wording of the same function, kept apart from the model of the source:
  every uppercase letter becomes an underscore followed by its lowercase form, then one
  leading underscore is dropped if there is one.
\<close>

definition snake_spec :: "jsstring \<Rightarrow> jsstring" where
  "snake_spec s =
     (let t = concat (map (\<lambda>c. if isAZ c then [underscore, c + 0x20] else [c]) s)
      in if t \<noteq> [] \<and> hd t = underscore then tl t else t)"

text \<open>The keys of the \<^verbatim>\<open>Router\<close> interface, in the order of the source.\<close>

definition router_methods :: "jsstring list" where
  "router_methods = map js
    [''restartApp'', ''getUpdateInfo'', ''quitAndInstall'', ''checkForUpdatesAndDownload'',
     ''openMicrophoneInSystemPreferences'', ''hidePanelWindow'', ''showContextMenu'',
     ''getMicrophoneStatus'', ''isAccessibilityGranted'', ''requestAccesssbilityAccess'',
     ''requestMicrophoneAccess'', ''showPanelWindow'', ''displayError'', ''createRecording'',
     ''getRecordingHistory'', ''deleteRecordingItem'', ''deleteRecordingHistory'',
     ''resizeStatusBarWindow'', ''toggleRecordingTranscript'', ''getConfig'', ''saveConfig'',
     ''recordEvent'', ''initVoiceActivation'', ''startVoiceActivation'',
     ''stopVoiceActivation'', ''getVoiceActivationStatus'', ''cleanupVoiceActivation'',
     ''initStreamingDictation'', ''startStreamingDictation'', ''stopStreamingDictation'',
     ''pauseStreamingDictation'', ''resumeStreamingDictation'', ''toggleStreamingDictation'',
     ''getStreamingDictationStatus'', ''cleanupStreamingDictation'', ''getActiveApplication'',
     ''updateActiveApplication'', ''getEffectiveConfig'', ''createAppRule'', ''updateAppRule'',
     ''deleteAppRule'', ''getAppRules'', ''testAppRule'', ''getRecordingState'',
     ''getProfiles'', ''getActiveProfileId'', ''createProfile'', ''updateProfile'',
     ''deleteProfile'', ''switchProfile'', ''duplicateProfile'', ''testFusionConfiguration'',
     ''getFusionConfig'', ''updateFusionConfig'', ''testContextDetection'',
     ''getCurrentAppInfo'', ''detectContextForApp'', ''getEffectiveFormattingConfig'',
     ''previewContextFormatting'']"

subsection \<open>JavaScript values and the proxy's handler\<close>

text \<open>
  The values the handler can be handed as \<^verbatim>\<open>input\<close>. Numbers are modelled as reals (the
  handler does no arithmetic on them; NaN and the infinities are left out), an
  \<^verbatim>\<open>ArrayBuffer\<close> (one that has not been detached) as its bytes, an object as its own
  properties in order (the first binding of a key counts).
\<close>

datatype jsval =
    JUndefined
  | JNull
  | JBool bool
  | JNum real
  | JStr jsstring
  | JArrayBuffer "8 word list"
  | JArray "jsval list"
  | JObject "(jsstring \<times> jsval) list"

datatype js_error = TypeError

text \<open>
  Reading a property \<^verbatim>\<open>input.k\<close>: a TypeError on \<^verbatim>\<open>undefined\<close> and \<^verbatim>\<open>null\<close>; the own
  property of an object, \<^verbatim>\<open>undefined\<close> when it has none. The handler reads only
  \<^verbatim>\<open>recording\<close>, \<^verbatim>\<open>duration\<close>, \<^verbatim>\<open>useFusion\<close> and \<^verbatim>\<open>config\<close>, which no prototype of a
  primitive, an array or a buffer defines, so these read as \<^verbatim>\<open>undefined\<close> there.
\<close>

fun get_prop :: "jsval \<Rightarrow> jsstring \<Rightarrow> js_error + jsval" where
  "get_prop JUndefined k = Inl TypeError"
| "get_prop JNull k = Inl TypeError"
| "get_prop (JObject fs) k = Inr (case map_of fs k of Some v \<Rightarrow> v | None \<Rightarrow> JUndefined)"
| "get_prop v k = Inr JUndefined"

text \<open>A property read at a place where the read cannot throw any more.\<close>

definition field :: "jsval \<Rightarrow> jsstring \<Rightarrow> jsval" where
  "field v k = (case get_prop v k of Inr x \<Rightarrow> x | Inl e \<Rightarrow> JUndefined)"

text \<open>JavaScript's ToBoolean.\<close>

fun truthy :: "jsval \<Rightarrow> bool" where
  "truthy JUndefined = False"
| "truthy JNull = False"
| "truthy (JBool b) = b"
| "truthy (JNum x) = (x \<noteq> 0)"
| "truthy (JStr s) = (s \<noteq> [])"
| "truthy (JArrayBuffer bs) = True"
| "truthy (JArray vs) = True"
| "truthy (JObject fs) = True"

text \<open>
  The condition \<^verbatim>\<open>prop === 'name' && input.k\<close>: \<^verbatim>\<open>&&\<close> does not read the property when
  the comparison is false.
\<close>

definition prop_and :: "bool \<Rightarrow> jsval \<Rightarrow> jsstring \<Rightarrow> js_error + bool" where
  "prop_and b input k =
     (if b then (case get_prop input k of Inl e \<Rightarrow> Inl e | Inr v \<Rightarrow> Inr (truthy v))
      else Inr False)"

text \<open>
  \<^verbatim>\<open>Array.from(new Uint8Array(input.recording))\<close>. On an \<^verbatim>\<open>ArrayBuffer\<close>, the type the
  \<^verbatim>\<open>Router\<close> interface gives \<^verbatim>\<open>recording\<close>, the typed array views the buffer's bytes and
  \<^verbatim>\<open>Array.from\<close> copies them out as numbers. The constructor's conversions of other
  truthy values (numbers, strings, arrays, objects) are outside this model: \<open>None\<close>.
\<close>

definition byte_number :: "8 word \<Rightarrow> jsval" where
  "byte_number b = JNum (real (unat b))"

fun array_from_uint8 :: "jsval \<Rightarrow> jsval option" where
  "array_from_uint8 (JArrayBuffer bs) = Some (JArray (map byte_number bs))"
| "array_from_uint8 v = None"

text \<open>
  What one call of a method of \<^verbatim>\<open>tipcClient\<close> does up to its call of \<^verbatim>\<open>invoke\<close>:
  \<open>Invoke cmd args\<close> is \<^verbatim>\<open>invoke(cmd, args)\<close> (\<open>None\<close>: called with the command
  only), whose result or rejection the method passes on; \<open>Throws e\<close> is an exception
  raised before that call, which the \<^verbatim>\<open>catch\<close> block logs and throws again;
  \<open>Unmodelled\<close> stands for the one case left out, \<^verbatim>\<open>createRecording\<close> with a truthy
  \<^verbatim>\<open>recording\<close> that is not an \<^verbatim>\<open>ArrayBuffer\<close> (see \<open>handler_get_Unmodelled\<close> below).
\<close>

datatype outcome =
    Invoke jsstring "jsval option"
  | Throws js_error
  | Unmodelled

text \<open>
  The function that \<^verbatim>\<open>get(_target, prop)\<close> of the proxy's handler returns, applied to
  \<^verbatim>\<open>input\<close> (\<open>JUndefined\<close> when the method is called with no argument).
\<close>

definition handler_get :: "jsstring \<Rightarrow> jsval \<Rightarrow> outcome" where
  "handler_get prop input =
     (let commandName = toSnakeCase prop in
      if input \<noteq> JUndefined then
        (case prop_and (prop = js ''createRecording'') input (js ''recording'') of
           Inl e \<Rightarrow> Throws e
         | Inr True \<Rightarrow>
             (case array_from_uint8 (field input (js ''recording'')) of
                None \<Rightarrow> Unmodelled
              | Some recordingArray \<Rightarrow>
                  Invoke commandName (Some (JObject
                    [(js ''recording'', recordingArray),
                     (js ''duration'', field input (js ''duration'')),
                     (js ''useFusion'', field input (js ''useFusion''))])))
         | Inr False \<Rightarrow>
             (case prop_and (prop = js ''saveConfig'') input (js ''config'') of
                Inl e \<Rightarrow> Throws e
              | Inr True \<Rightarrow>
                  Invoke commandName (Some (JObject [(js ''config'', field input (js ''config''))]))
              | Inr False \<Rightarrow> Invoke commandName (Some input)))
      else Invoke commandName None)"

section \<open>The provider connection manager of the context protocol layer\<close>

text \<open>
  The protocol layer itself (the backend's context protocol module) is not among the
  source files, which hold the renderer's client above and documentation. The
  definitions of this section are therefore written from the specification's sections 3
  and 4.2, one step of the manager per definition, so that every state the manager
  passes through is a state of the model.
\<close>

text \<open>Modelled from the spec: the states of a ProviderConnection (the connection
  manager's code is missing), "states {Connecting, Ready, Degraded, Closed}".\<close>

datatype conn_state = Connecting | Ready | Degraded | Closed

text \<open>Modelled from the spec: the two failures of connect (the connection manager's
  code is missing): ProviderUnavailable "if the process cannot start", HandshakeFailed
  "if the provider responds with an incompatible version or malformed handshake".\<close>

datatype connect_failure = ProviderUnavailable | HandshakeFailed

text \<open>Modelled from the spec: ProviderConfig (its declaration is missing), "name (unique
  key), launch command and arguments, environment overrides, enabled flag".\<close>

record provider_config =
  pc_name :: string
  pc_command :: string
  pc_arguments :: "string list"
  pc_environment :: "(string \<times> string) list"
  pc_enabled :: bool

text \<open>Modelled from the spec: ProviderConnection (its declaration is missing), the
  runtime handle of one spawned provider with its state; a failed connection "is
  recorded as Closed with the failure reason, not silently dropped", and a Degraded one
  is retried a bounded number of times, which the handle counts.\<close>

record connection =
  conn_config :: provider_config
  conn_state :: conn_state
  conn_failure :: "connect_failure option"
  conn_attempts :: nat

text \<open>Modelled from the spec: the namespace of a tool name (its declaration is
  missing), "the qualifier (provider name, or "local") preventing tool-name collisions
  across sources".\<close>

datatype namespace = Local | Provider string

text \<open>Modelled from the spec: ToolDescriptor (its declaration is missing), "name,
  description, and an input-shape schema"; the schema is kept as uninterpreted text.\<close>

record tool_descriptor =
  td_name :: string
  td_description :: string
  td_schema :: string

text \<open>Modelled from the spec: ToolRegistry (its declaration is missing), a "mapping from
  namespace-qualified tool name to ToolDescriptor"; the binding of an entry is its
  namespace (a local function for \<open>Local\<close>, the remote provider for \<open>Provider p\<close>).\<close>

type_synonym tool_registry = "namespace \<times> string \<rightharpoonup> tool_descriptor"

text \<open>Modelled from the spec: the state the connection manager owns (its declaration is
  missing), the provider-connection table with every connection it has recorded, oldest
  first, and the tool registry.\<close>

record manager =
  connections :: "connection list"
  registry :: tool_registry

text \<open>Modelled from the spec: the name a connection is identified by (missing code),
  "identity is the name".\<close>

definition conn_name :: "connection \<Rightarrow> string" where
  "conn_name c = pc_name (conn_config c)"

text \<open>Modelled from the spec: a live connection (missing code) is one that is not
  Closed, that is Connecting, Ready or Degraded.\<close>

definition live :: "connection \<Rightarrow> bool" where
  "live c \<longleftrightarrow> conn_state c \<noteq> Closed"

text \<open>Modelled from the spec: the live connections of a name in the table (missing
  code).\<close>

definition live_named :: "string \<Rightarrow> manager \<Rightarrow> connection list" where
  "live_named n s = filter (\<lambda>c. live c \<and> conn_name c = n) (connections s)"

text \<open>Modelled from the spec: the invariant of section 4.2 (missing code), "at most one
  live connection per provider name at any time": the names of the live connections of
  the table are pairwise different.\<close>

definition one_live_per_name :: "manager \<Rightarrow> bool" where
  "one_live_per_name s \<longleftrightarrow> distinct (map conn_name (filter live (connections s)))"

text \<open>Modelled from the spec: the start state (missing code), no connection and the
  static local tools only; "local registry entries never expire".\<close>

definition initial :: "(string \<rightharpoonup> tool_descriptor) \<Rightarrow> manager" where
  "initial local_tools =
     \<lparr>connections = [],
      registry = (\<lambda>(ns, t). if ns = Local then local_tools t else None)\<rparr>"

text \<open>Modelled from the spec: pruning (missing code), "remote entries are pruned when
  their owning provider disconnects".\<close>

definition prune :: "string \<Rightarrow> tool_registry \<Rightarrow> tool_registry" where
  "prune n reg = (\<lambda>(ns, t). if ns = Provider n then None else reg (ns, t))"

text \<open>Modelled from the spec: terminating the transport of a connection (missing code);
  the handle stays in the table as Closed.\<close>

definition close_connection :: "connection \<Rightarrow> connection" where
  "close_connection c = c\<lparr>conn_state := Closed\<rparr>"

text \<open>Modelled from the spec: disconnect(name) (missing code), which "sends a shutdown
  notification (best-effort), terminates the transport, and removes all tool entries
  sourced from that provider from the registry". The notification has no effect on the
  manager's state.\<close>

definition disconnect :: "string \<Rightarrow> manager \<Rightarrow> manager" where
  "disconnect n s =
     s\<lparr>connections :=
          map (\<lambda>c. if conn_name c = n \<and> live c then close_connection c else c) (connections s),
       registry := prune n (registry s)\<rparr>"

text \<open>Modelled from the spec: the first half of connect(config) (missing code), which
  "spawns the provider's process": a new handle in state Connecting, or, "if the process
  cannot start", one "recorded as Closed with the failure reason" ProviderUnavailable.\<close>

definition spawn :: "provider_config \<Rightarrow> bool \<Rightarrow> manager \<Rightarrow> manager" where
  "spawn cfg started s =
     s\<lparr>connections := connections s @
          [\<lparr>conn_config = cfg,
            conn_state = (if started then Connecting else Closed),
            conn_failure = (if started then None else Some ProviderUnavailable),
            conn_attempts = 0\<rparr>]\<rparr>"

text \<open>Modelled from the spec: the second half of connect(config) (missing code), the
  initialize handshake, which "transitions the connection to Ready only after the
  provider acknowledges" and otherwise records it as Closed with HandshakeFailed.\<close>

definition handshake :: "string \<Rightarrow> bool \<Rightarrow> manager \<Rightarrow> manager" where
  "handshake n acknowledged s =
     s\<lparr>connections :=
          map (\<lambda>c. if conn_name c = n \<and> conn_state c = Connecting
                   then (if acknowledged then c\<lparr>conn_state := Ready\<rparr>
                         else c\<lparr>conn_state := Closed, conn_failure := Some HandshakeFailed\<rparr>)
                   else c)
              (connections s)\<rparr>"

text \<open>Modelled from the spec: the states connect(config) passes through (missing code):
  "reconfiguring a name tears down the old connection before establishing the new one",
  so the old connection of the name is disconnected, then the process is spawned, then
  the handshake is made. \<open>started\<close> and \<open>acknowledged\<close> are what the provider does.\<close>

definition connect_steps :: "provider_config \<Rightarrow> bool \<Rightarrow> bool \<Rightarrow> manager \<Rightarrow> manager list" where
  "connect_steps cfg started acknowledged s =
     (let s1 = disconnect (pc_name cfg) s;
          s2 = spawn cfg started s1;
          s3 = handshake (pc_name cfg) acknowledged s2
      in [s1, s2, s3])"

text \<open>Modelled from the spec: connect(config) (missing code), the state its steps end in.\<close>

definition connect :: "provider_config \<Rightarrow> bool \<Rightarrow> bool \<Rightarrow> manager \<Rightarrow> manager" where
  "connect cfg started acknowledged s = last (connect_steps cfg started acknowledged s)"

text \<open>Modelled from the spec: liveness (missing code), "a connection whose transport
  reports end-of-stream or whose heartbeat lapses transitions to Degraded".\<close>

definition transport_lost :: "string \<Rightarrow> manager \<Rightarrow> manager" where
  "transport_lost n s =
     s\<lparr>connections :=
          map (\<lambda>c. if conn_name c = n \<and> conn_state c = Ready
                   then c\<lparr>conn_state := Degraded\<rparr> else c)
              (connections s)\<rparr>"

text \<open>Modelled from the spec: one retry of a Degraded connection (missing code), "retried
  with exponential backoff (bounded attempts; after exhaustion the connection becomes
  Closed"). The bound is a parameter: the spec leaves it open.\<close>

definition retry :: "nat \<Rightarrow> string \<Rightarrow> bool \<Rightarrow> manager \<Rightarrow> manager" where
  "retry max_attempts n recovered s =
     s\<lparr>connections :=
          map (\<lambda>c. if conn_name c = n \<and> conn_state c = Degraded
                   then (if recovered then c\<lparr>conn_state := Ready, conn_attempts := 0\<rparr>
                         else if Suc (conn_attempts c) \<ge> max_attempts
                         then c\<lparr>conn_state := Closed, conn_attempts := Suc (conn_attempts c)\<rparr>
                         else c\<lparr>conn_attempts := Suc (conn_attempts c)\<rparr>)
                   else c)
              (connections s)\<rparr>"

text \<open>Modelled from the spec: the registry update of listTools() for one provider
  (missing code), which merges its catalogue "into the registry under the provider's
  namespace, replacing any previously discovered entries for that provider"; only a
  Ready provider is queried.\<close>

definition discover :: "string \<Rightarrow> tool_descriptor list \<Rightarrow> manager \<Rightarrow> manager" where
  "discover n tools s =
     (if \<exists>c \<in> set (connections s). conn_name c = n \<and> conn_state c = Ready
      then s\<lparr>registry :=
             (\<lambda>(ns, t). if ns = Provider n then map_of (map (\<lambda>d. (td_name d, d)) tools) t
                        else registry s (ns, t))\<rparr>
      else s)"

text \<open>Modelled from the spec: what the manager can be asked to do or be told by a
  transport (missing code): connect (also the reconfiguration of a name), disconnect,
  the loss of a transport, a retry, and a discovery.\<close>

datatype action =
    Connect provider_config bool bool
  | Disconnect string
  | TransportLost string
  | Retry nat string bool
  | Discover string "tool_descriptor list"

text \<open>Modelled from the spec: the states one action passes through, in order (missing
  code); only connect has states in between.\<close>

fun action_steps :: "action \<Rightarrow> manager \<Rightarrow> manager list" where
  "action_steps (Connect cfg started acknowledged) s = connect_steps cfg started acknowledged s"
| "action_steps (Disconnect n) s = [disconnect n s]"
| "action_steps (TransportLost n) s = [transport_lost n s]"
| "action_steps (Retry k n recovered) s = [retry k n recovered s]"
| "action_steps (Discover n tools) s = [discover n tools s]"

text \<open>Modelled from the spec: every state the manager is in, from the given state on,
  while it performs the actions one after the other (missing code).\<close>

fun trace :: "manager \<Rightarrow> action list \<Rightarrow> manager list" where
  "trace s [] = [s]"
| "trace s (a # as) = s # butlast (action_steps a s) @ trace (last (action_steps a s)) as"

text \<open>Modelled from the spec: the state after the actions (missing code).\<close>

definition run :: "manager \<Rightarrow> action list \<Rightarrow> manager" where
  "run s as = last (trace s as)"

subsection \<open>An example run\<close>

text \<open>The filesystem provider of the integration guide's configuration example, the same
  name configured a second time with another directory, one tool it offers, and a run of
  the manager: connect, then discover.\<close>

definition filesystem_config :: provider_config where
  "filesystem_config =
     \<lparr>pc_name = ''filesystem'', pc_command = ''npx'',
      pc_arguments = [''-y'', ''@modelcontextprotocol/server-filesystem'', ''/path/to/workspace''],
      pc_environment = [], pc_enabled = True\<rparr>"

definition filesystem_reconfigured :: provider_config where
  "filesystem_reconfigured = filesystem_config\<lparr>pc_arguments := [''-y'', ''@modelcontextprotocol/server-filesystem'', ''/other'']\<rparr>"

definition read_file_tool :: tool_descriptor where
  "read_file_tool = \<lparr>td_name = ''read_file'', td_description = ''Read a file'', td_schema = ''{}''\<rparr>"

definition example_actions :: "action list" where
  "example_actions = [Connect filesystem_config True True, Discover ''filesystem'' [read_file_tool]]"

section \<open>Properties of the Tauri client\<close>

subsection \<open>The command name\<close>

lemma replace_class_g_concat:
  "replace_class_g p f s = concat (map (\<lambda>c. if p c then f c else [c]) s)"
  by (induction s) simp_all

lemma replace_leading_underscore_hd:
  "replace_leading_underscore t = (if t \<noteq> [] \<and> hd t = underscore then tl t else t)"
  by (cases t) simp_all

lemma toSnakeCase_snake_spec: "toSnakeCase s = snake_spec s"
  unfolding toSnakeCase_def snake_spec_def replace_class_g_concat Let_def
    replace_leading_underscore_hd
  by (simp add: toLowerCase_def cong: if_cong)

lemma replace_class_g_none: "\<forall>c \<in> set s. \<not> p c \<Longrightarrow> replace_class_g p f s = s"
  by (induction s) simp_all

lemma toSnakeCase_fixed:
  assumes "\<forall>c \<in> set s. \<not> isAZ c" and "\<not> (\<exists>t. s = underscore # t)"
  shows "toSnakeCase s = s"
  using assms by (cases s) (simp_all add: toSnakeCase_def replace_class_g_none)

lemma unat_shift_AZ:
  fixes c :: jschar
  assumes "isAZ c"
  shows "unat (c + 0x20) = unat c + 32"
proof -
  from assms have "unat c \<le> 90"
    by (simp add: isAZ_def word_le_nat_alt)
  then have "unat c + unat (0x20 :: jschar) < 2 ^ LENGTH(16)"
    by simp
  then have "unat (c + 0x20) = unat c + unat (0x20 :: jschar)"
    by (simp only: unat_add_lem [THEN iffD1])
  then show ?thesis by simp
qed

lemma toLowerCase_isaz: "isAZ c \<Longrightarrow> isaz (toLowerCase c)"
  using unat_shift_AZ [of c]
  by (simp add: isAZ_def isaz_def toLowerCase_def word_le_nat_alt)

lemma isaz_not_isAZ: "isaz c \<Longrightarrow> \<not> isAZ c"
  by (simp add: isAZ_def isaz_def word_le_nat_alt)

lemma isaz_not_underscore: "isaz c \<Longrightarrow> c \<noteq> underscore"
  by (auto simp add: underscore_def isaz_def word_le_nat_alt)

lemma underscore_not_isAZ: "\<not> isAZ underscore"
  by (simp add: underscore_def isAZ_def)

lemma replace_class_g_no_AZ:
  "\<forall>c \<in> set (replace_class_g isAZ (\<lambda>letter. underscore # [toLowerCase letter]) s). \<not> isAZ c"
  by (induction s) (simp_all add: underscore_not_isAZ toLowerCase_isaz isaz_not_isAZ)

lemma set_replace_leading_underscore: "set (replace_leading_underscore t) \<subseteq> set t"
  by (cases t) auto

lemma toSnakeCase_no_AZ: "\<forall>c \<in> set (toSnakeCase s). \<not> isAZ c"
  unfolding toSnakeCase_def
  using replace_class_g_no_AZ [of s] set_replace_leading_underscore by blast

lemma toSnakeCase_lower_head:
  assumes "s \<noteq> []" and "isaz (hd s)"
  shows "\<exists>t. toSnakeCase s = hd s # t"
  using assms
  by (cases s) (simp_all add: toSnakeCase_def isaz_not_isAZ isaz_not_underscore)

lemma toSnakeCase_idem_lower_head:
  assumes "s \<noteq> []" and "isaz (hd s)"
  shows "toSnakeCase (toSnakeCase s) = toSnakeCase s"
proof (rule toSnakeCase_fixed)
  show "\<forall>c \<in> set (toSnakeCase s). \<not> isAZ c" by (rule toSnakeCase_no_AZ)
  from toSnakeCase_lower_head [OF assms] obtain t where "toSnakeCase s = hd s # t" ..
  then show "\<not> (\<exists>t. toSnakeCase s = underscore # t)"
    using isaz_not_underscore [OF assms(2)] by simp
qed

lemma router_methods_heads: "\<forall>n \<in> set router_methods. n \<noteq> [] \<and> isaz (hd n)"
  unfolding router_methods_def
  by (simp add: js_def isaz_def)

lemma router_methods_letters: "\<forall>n \<in> set router_methods. \<forall>c \<in> set n. isaz c \<or> isAZ c"
  unfolding router_methods_def
  by (simp add: js_def isaz_def isAZ_def)

lemma handler_get_command:
  "handler_get prop input = Invoke cmd args \<Longrightarrow> cmd = toSnakeCase prop"
  unfolding handler_get_def Let_def
  by (simp split: if_splits sum.splits bool.splits option.splits)

lemma js_createRecording_neq_saveConfig: "js ''createRecording'' \<noteq> js ''saveConfig''"
  by (simp add: js_def)

text \<open>The two outcomes other than a call of \<^verbatim>\<open>invoke\<close>, and exactly when they arise.\<close>

lemma handler_get_Unmodelled:
  "handler_get prop input = Unmodelled \<longleftrightarrow>
     prop = js ''createRecording'' \<and>
     (\<exists>v. get_prop input (js ''recording'') = Inr v \<and> truthy v \<and> array_from_uint8 v = None)"
proof (cases "prop = js ''createRecording''")
  case True
  show ?thesis
  proof (cases "get_prop input (js ''recording'')")
    case (Inl e)
    then show ?thesis
      by (simp add: handler_get_def Let_def prop_and_def True)
  next
    case (Inr v)
    then have "input \<noteq> JUndefined" by auto
    then show ?thesis
      using js_createRecording_neq_saveConfig
      by (simp add: handler_get_def Let_def prop_and_def field_def True Inr
          split: option.splits bool.splits)
  qed
next
  case False
  then show ?thesis
    by (simp add: handler_get_def Let_def prop_and_def split: sum.splits bool.splits)
qed

lemma handler_get_Throws:
  "handler_get prop input = Throws e \<longleftrightarrow>
     input = JNull \<and> (prop = js ''createRecording'' \<or> prop = js ''saveConfig'')"
proof (cases input)
  case JUndefined
  then show ?thesis by (simp add: handler_get_def Let_def)
next
  case JNull
  then show ?thesis
    using js_createRecording_neq_saveConfig
    by (cases e) (auto simp add: handler_get_def Let_def prop_and_def)
qed (simp_all add: handler_get_def Let_def prop_and_def split: option.splits bool.splits)

lemma toSnakeCase_createRecording: "toSnakeCase (js ''createRecording'') = js ''create_recording''"
  by (simp add: toSnakeCase_def js_def isAZ_def toLowerCase_def underscore_def)

text \<open>What the handler does at each of its calls of \<^verbatim>\<open>invoke\<close>, and that every call of a
  method ends in one of them or in one of the two outcomes above.\<close>

lemma handler_get_no_input: "handler_get prop JUndefined = Invoke (toSnakeCase prop) None"
  by (simp add: handler_get_def Let_def)

lemma handler_get_other:
  assumes "input \<noteq> JUndefined" and "prop \<noteq> js ''createRecording''" and "prop \<noteq> js ''saveConfig''"
  shows "handler_get prop input = Invoke (toSnakeCase prop) (Some input)"
  using assms by (simp add: handler_get_def Let_def prop_and_def)

lemma handler_get_saveConfig:
  assumes "get_prop input (js ''config'') = Inr cfg"
  shows "handler_get (js ''saveConfig'') input =
     Invoke (toSnakeCase (js ''saveConfig''))
       (Some (if truthy cfg then JObject [(js ''config'', cfg)] else input))"
proof -
  from assms have "input \<noteq> JUndefined" by auto
  then show ?thesis
    using js_createRecording_neq_saveConfig assms
    by (simp add: handler_get_def Let_def prop_and_def field_def eq_commute [of "js ''saveConfig''"])
qed

lemma handler_get_createRecording_falsy:
  assumes "get_prop input (js ''recording'') = Inr r" and "\<not> truthy r"
  shows "handler_get (js ''createRecording'') input =
     Invoke (toSnakeCase (js ''createRecording'')) (Some input)"
proof -
  from assms have "input \<noteq> JUndefined" by auto
  then show ?thesis
    using js_createRecording_neq_saveConfig assms
    by (simp add: handler_get_def Let_def prop_and_def field_def)
qed

lemma handler_get_createRecording_buffer:
  assumes "get_prop input (js ''recording'') = Inr (JArrayBuffer buf)"
  shows "handler_get (js ''createRecording'') input =
     Invoke (toSnakeCase (js ''createRecording''))
       (Some (JObject [(js ''recording'', JArray (map byte_number buf)),
                       (js ''duration'', field input (js ''duration'')),
                       (js ''useFusion'', field input (js ''useFusion''))]))"
proof -
  from assms have "input \<noteq> JUndefined" by auto
  moreover from assms have "field input (js ''recording'') = JArrayBuffer buf"
    by (simp add: field_def)
  ultimately show ?thesis
    using assms by (simp add: handler_get_def Let_def prop_and_def)
qed

lemma handler_get_total:
  "(\<exists>args. handler_get prop input = Invoke (toSnakeCase prop) args)
   \<or> (handler_get prop input = Throws TypeError \<and> input = JNull
        \<and> (prop = js ''createRecording'' \<or> prop = js ''saveConfig''))
   \<or> (handler_get prop input = Unmodelled \<and> prop = js ''createRecording''
        \<and> (\<exists>v. get_prop input (js ''recording'') = Inr v \<and> truthy v \<and> array_from_uint8 v = None))"
proof (cases "handler_get prop input")
  case (Invoke cmd args)
  then have "cmd = toSnakeCase prop" by (rule handler_get_command)
  with Invoke show ?thesis by blast
next
  case (Throws e)
  moreover have "e = TypeError" by (cases e) simp
  ultimately show ?thesis using handler_get_Throws [of _ input e] by blast
next
  case Unmodelled
  then show ?thesis using handler_get_Unmodelled [of _ input] by blast
qed

lemma toSnakeCase_examples:
  "toSnakeCase (js ''getConfig'') = js ''get_config''"
  "toSnakeCase (js ''deleteRecordingItem'') = js ''delete_recording_item''"
  "toSnakeCase (js ''saveConfig'') = js ''save_config''"
  "toSnakeCase (js ''getActiveProfileId'') = js ''get_active_profile_id''"
  by (simp_all add: toSnakeCase_def js_def isAZ_def toLowerCase_def underscore_def)

text \<open>
  Claim C9. Whatever method \<open>prop\<close> of \<^verbatim>\<open>tipcClient\<close> is called, the command it hands to
  \<^verbatim>\<open>invoke\<close> is \<open>toSnakeCase prop\<close>, at each of the four places that call \<^verbatim>\<open>invoke\<close>:
  with no input, \<^verbatim>\<open>invoke(command)\<close>; with an input and a method other than
  \<^verbatim>\<open>createRecording\<close> and \<^verbatim>\<open>saveConfig\<close>, \<^verbatim>\<open>invoke(command, input)\<close>; for
  \<^verbatim>\<open>saveConfig\<close>, the unwrapped \<^verbatim>\<open>config\<close> when it is truthy and the input otherwise; for
  \<^verbatim>\<open>createRecording\<close>, the converted recording when it is an \<^verbatim>\<open>ArrayBuffer\<close> and the
  input when \<^verbatim>\<open>recording\<close> is falsy. Every call ends in such an \<^verbatim>\<open>invoke\<close> of
  \<open>toSnakeCase prop\<close>, but for two cases: \<^verbatim>\<open>createRecording\<close> or \<^verbatim>\<open>saveConfig\<close> called with
  \<^verbatim>\<open>null\<close>, which throws a TypeError, and \<^verbatim>\<open>createRecording\<close> with a truthy \<^verbatim>\<open>recording\<close>
  that is not an \<^verbatim>\<open>ArrayBuffer\<close>, which the model leaves out. No call invokes any other
  command. \<open>toSnakeCase\<close> puts an underscore and the lowercase letter in place of every
  uppercase letter (the class \<^verbatim>\<open>[A-Z]\<close>) and then drops one leading underscore
  (\<open>snake_spec\<close>). A string with no uppercase letter that does not begin with an
  underscore is left as it is. Every key of \<^verbatim>\<open>Router\<close> is made of the letters a-z and A-Z
  and begins with a lowercase letter; its command name has no uppercase letter and no
  leading underscore, so applying \<open>toSnakeCase\<close> to it again changes nothing.
\<close>

theorem tipcClient_command_name:
  "handler_get prop JUndefined = Invoke (toSnakeCase prop) None
   \<and> (\<forall>input. input \<noteq> JUndefined \<and> prop \<noteq> js ''createRecording'' \<and> prop \<noteq> js ''saveConfig''
         \<longrightarrow> handler_get prop input = Invoke (toSnakeCase prop) (Some input))
   \<and> (\<forall>input cfg. get_prop input (js ''config'') = Inr cfg
         \<longrightarrow> handler_get (js ''saveConfig'') input =
             Invoke (toSnakeCase (js ''saveConfig''))
               (Some (if truthy cfg then JObject [(js ''config'', cfg)] else input)))
   \<and> (\<forall>input r. get_prop input (js ''recording'') = Inr r \<and> \<not> truthy r
         \<longrightarrow> handler_get (js ''createRecording'') input =
             Invoke (toSnakeCase (js ''createRecording'')) (Some input))
   \<and> (\<forall>input buf. get_prop input (js ''recording'') = Inr (JArrayBuffer buf)
         \<longrightarrow> handler_get (js ''createRecording'') input =
             Invoke (toSnakeCase (js ''createRecording''))
               (Some (JObject [(js ''recording'', JArray (map byte_number buf)),
                               (js ''duration'', field input (js ''duration'')),
                               (js ''useFusion'', field input (js ''useFusion''))])))
   \<and> (\<forall>input.
         (\<exists>args. handler_get prop input = Invoke (toSnakeCase prop) args)
         \<or> (handler_get prop input = Throws TypeError \<and> input = JNull
              \<and> (prop = js ''createRecording'' \<or> prop = js ''saveConfig''))
         \<or> (handler_get prop input = Unmodelled \<and> prop = js ''createRecording''
              \<and> (\<exists>v. get_prop input (js ''recording'') = Inr v \<and> truthy v
                       \<and> array_from_uint8 v = None)))
   \<and> (\<forall>input cmd args. handler_get prop input = Invoke cmd args \<longrightarrow> cmd = toSnakeCase prop)
   \<and> toSnakeCase s = snake_spec s
   \<and> ((\<forall>c \<in> set s. \<not> isAZ c) \<and> \<not> (\<exists>t. s = underscore # t) \<longrightarrow> toSnakeCase s = s)
   \<and> (\<forall>name \<in> set router_methods.
         name \<noteq> [] \<and> isaz (hd name) \<and> (\<forall>c \<in> set name. isaz c \<or> isAZ c)
         \<and> (\<forall>c \<in> set (toSnakeCase name). \<not> isAZ c)
         \<and> \<not> (\<exists>t. toSnakeCase name = underscore # t)
         \<and> toSnakeCase (toSnakeCase name) = toSnakeCase name)"
proof (intro conjI)
  show "handler_get prop JUndefined = Invoke (toSnakeCase prop) None"
    by (rule handler_get_no_input)
  show "\<forall>input. input \<noteq> JUndefined \<and> prop \<noteq> js ''createRecording'' \<and> prop \<noteq> js ''saveConfig''
         \<longrightarrow> handler_get prop input = Invoke (toSnakeCase prop) (Some input)"
    using handler_get_other by blast
  show "\<forall>input cfg. get_prop input (js ''config'') = Inr cfg
         \<longrightarrow> handler_get (js ''saveConfig'') input =
             Invoke (toSnakeCase (js ''saveConfig''))
               (Some (if truthy cfg then JObject [(js ''config'', cfg)] else input))"
    using handler_get_saveConfig by blast
  show "\<forall>input r. get_prop input (js ''recording'') = Inr r \<and> \<not> truthy r
         \<longrightarrow> handler_get (js ''createRecording'') input =
             Invoke (toSnakeCase (js ''createRecording'')) (Some input)"
    using handler_get_createRecording_falsy by blast
  show "\<forall>input buf. get_prop input (js ''recording'') = Inr (JArrayBuffer buf)
         \<longrightarrow> handler_get (js ''createRecording'') input =
             Invoke (toSnakeCase (js ''createRecording''))
               (Some (JObject [(js ''recording'', JArray (map byte_number buf)),
                               (js ''duration'', field input (js ''duration'')),
                               (js ''useFusion'', field input (js ''useFusion''))]))"
    using handler_get_createRecording_buffer by blast
  show "\<forall>input.
         (\<exists>args. handler_get prop input = Invoke (toSnakeCase prop) args)
         \<or> (handler_get prop input = Throws TypeError \<and> input = JNull
              \<and> (prop = js ''createRecording'' \<or> prop = js ''saveConfig''))
         \<or> (handler_get prop input = Unmodelled \<and> prop = js ''createRecording''
              \<and> (\<exists>v. get_prop input (js ''recording'') = Inr v \<and> truthy v
                       \<and> array_from_uint8 v = None))"
    using handler_get_total by (intro allI)
  show "\<forall>input cmd args. handler_get prop input = Invoke cmd args \<longrightarrow> cmd = toSnakeCase prop"
    using handler_get_command by blast
  show "toSnakeCase s = snake_spec s"
    by (rule toSnakeCase_snake_spec)
  show "(\<forall>c \<in> set s. \<not> isAZ c) \<and> \<not> (\<exists>t. s = underscore # t) \<longrightarrow> toSnakeCase s = s"
    using toSnakeCase_fixed by blast
  show "\<forall>name \<in> set router_methods.
         name \<noteq> [] \<and> isaz (hd name) \<and> (\<forall>c \<in> set name. isaz c \<or> isAZ c)
         \<and> (\<forall>c \<in> set (toSnakeCase name). \<not> isAZ c)
         \<and> \<not> (\<exists>t. toSnakeCase name = underscore # t)
         \<and> toSnakeCase (toSnakeCase name) = toSnakeCase name"
  proof
    fix name assume mem: "name \<in> set router_methods"
    then have ne: "name \<noteq> []" and low: "isaz (hd name)"
      using router_methods_heads by blast+
    from toSnakeCase_lower_head [OF ne low] obtain t where "toSnakeCase name = hd name # t" ..
    then have "\<not> (\<exists>t. toSnakeCase name = underscore # t)"
      using isaz_not_underscore [OF low] by simp
    moreover have "\<forall>c \<in> set name. isaz c \<or> isAZ c"
      using mem router_methods_letters by blast
    ultimately show "name \<noteq> [] \<and> isaz (hd name) \<and> (\<forall>c \<in> set name. isaz c \<or> isAZ c)
         \<and> (\<forall>c \<in> set (toSnakeCase name). \<not> isAZ c)
         \<and> \<not> (\<exists>t. toSnakeCase name = underscore # t)
         \<and> toSnakeCase (toSnakeCase name) = toSnakeCase name"
      using ne low toSnakeCase_no_AZ [of name] toSnakeCase_idem_lower_head [OF ne low] by blast
  qed
qed

theorem tipcClient_command_name_witness:
  "handler_get (js ''getConfig'') JUndefined = Invoke (js ''get_config'') None
   \<and> handler_get (js ''deleteRecordingItem'') (JObject [(js ''id'', JStr (js ''r1''))]) =
       Invoke (js ''delete_recording_item'') (Some (JObject [(js ''id'', JStr (js ''r1''))]))
   \<and> handler_get (js ''saveConfig'') (JObject [(js ''config'', JObject [(js ''shortcut'', JStr (js ''ctrl''))])]) =
       Invoke (js ''save_config'') (Some (JObject [(js ''config'', JObject [(js ''shortcut'', JStr (js ''ctrl''))])]))
   \<and> handler_get (js ''createRecording'')
        (JObject [(js ''recording'', JArrayBuffer [0x1A, 0x45]), (js ''duration'', JNum 20)]) =
       Invoke (js ''create_recording'')
        (Some (JObject [(js ''recording'', JArray [JNum 26, JNum 69]), (js ''duration'', JNum 20),
                        (js ''useFusion'', JUndefined)]))
   \<and> handler_get (js ''saveConfig'') JNull = Throws TypeError
   \<and> toSnakeCase (js ''createRecording'') = js ''create_recording''
   \<and> snake_spec (js ''createRecording'') = js ''create_recording''
   \<and> toSnakeCase (js ''create_recording'') = js ''create_recording''
   \<and> toSnakeCase (toSnakeCase (js ''getActiveProfileId'')) = toSnakeCase (js ''getActiveProfileId'')
   \<and> toSnakeCase (js ''getActiveProfileId'') = js ''get_active_profile_id''"
proof -
  note inst0 = tipcClient_command_name [of "js ''getConfig''" "js ''create_recording''"]
  note inst1 = tipcClient_command_name [of "js ''deleteRecordingItem''" "js ''createRecording''"]
  note inst2 = tipcClient_command_name [of "js ''saveConfig''" "js ''createRecording''"]
  have a: "handler_get (js ''getConfig'') JUndefined = Invoke (js ''get_config'') None"
    using inst0 by (simp only: toSnakeCase_examples)
  have b_pre: "JObject [(js ''id'', JStr (js ''r1''))] \<noteq> JUndefined
      \<and> js ''deleteRecordingItem'' \<noteq> js ''createRecording''
      \<and> js ''deleteRecordingItem'' \<noteq> js ''saveConfig''"
    by (simp add: js_def)
  have b: "handler_get (js ''deleteRecordingItem'') (JObject [(js ''id'', JStr (js ''r1''))]) =
       Invoke (js ''delete_recording_item'') (Some (JObject [(js ''id'', JStr (js ''r1''))]))"
    using inst1 b_pre toSnakeCase_examples(2) by metis
  have c_pre: "get_prop (JObject [(js ''config'', JObject [(js ''shortcut'', JStr (js ''ctrl''))])]) (js ''config'')
      = Inr (JObject [(js ''shortcut'', JStr (js ''ctrl''))])"
    by simp
  have c: "handler_get (js ''saveConfig'') (JObject [(js ''config'', JObject [(js ''shortcut'', JStr (js ''ctrl''))])]) =
       Invoke (js ''save_config'') (Some (JObject [(js ''config'', JObject [(js ''shortcut'', JStr (js ''ctrl''))])]))"
    using inst0 [THEN conjunct2, THEN conjunct2, THEN conjunct1, rule_format, OF c_pre]
    by (simp add: toSnakeCase_examples)
  have d_pre: "get_prop (JObject [(js ''recording'', JArrayBuffer [0x1A, 0x45]), (js ''duration'', JNum 20)])
      (js ''recording'') = Inr (JArrayBuffer [0x1A, 0x45])"
    by simp
  have d: "handler_get (js ''createRecording'')
        (JObject [(js ''recording'', JArrayBuffer [0x1A, 0x45]), (js ''duration'', JNum 20)]) =
       Invoke (js ''create_recording'')
        (Some (JObject [(js ''recording'', JArray [JNum 26, JNum 69]), (js ''duration'', JNum 20),
                        (js ''useFusion'', JUndefined)]))"
  proof -
    let ?input = "JObject [(js ''recording'', JArrayBuffer [0x1A, 0x45]), (js ''duration'', JNum 20)]"
    have dur: "field ?input (js ''duration'') = JNum 20"
      by (simp add: field_def js_def)
    have fus: "field ?input (js ''useFusion'') = JUndefined"
      by (simp add: field_def js_def)
    have bytes: "map byte_number [0x1A, 0x45] = [JNum 26, JNum 69]"
      by (simp add: byte_number_def)
    show ?thesis
      using inst0 [THEN conjunct2, THEN conjunct2, THEN conjunct2, THEN conjunct2, THEN conjunct1,
          rule_format, OF d_pre]
      by (simp only: toSnakeCase_createRecording dur fus bytes)
  qed
  have e: "handler_get (js ''saveConfig'') JNull = Throws TypeError"
  proof -
    have "get_prop JNull (js ''recording'') \<noteq> Inr v" for v by simp
    moreover have "handler_get (js ''saveConfig'') JNull \<noteq> Invoke (toSnakeCase (js ''saveConfig'')) args" for args
      by (simp add: handler_get_def Let_def prop_and_def js_def)
    ultimately show ?thesis
      using inst2 [THEN conjunct2, THEN conjunct2, THEN conjunct2, THEN conjunct2, THEN conjunct2,
          THEN conjunct1, rule_format, of JNull] by blast
  qed
  have 2: "toSnakeCase (js ''createRecording'') = js ''create_recording''"
    by (rule toSnakeCase_createRecording)
  have 3: "snake_spec (js ''createRecording'') = js ''create_recording''"
    using inst1 2 by simp
  have pre: "(\<forall>c \<in> set (js ''create_recording''). \<not> isAZ c) \<and> \<not> (\<exists>t. js ''create_recording'' = underscore # t)"
    by (simp add: js_def isAZ_def underscore_def)
  have 4: "toSnakeCase (js ''create_recording'') = js ''create_recording''"
    using inst0 pre by blast
  have mem: "js ''getActiveProfileId'' \<in> set router_methods"
    by (simp add: router_methods_def)
  have 5: "toSnakeCase (toSnakeCase (js ''getActiveProfileId'')) = toSnakeCase (js ''getActiveProfileId'')"
    using inst0 mem by blast
  have 6: "toSnakeCase (js ''getActiveProfileId'') = js ''get_active_profile_id''"
    by (rule toSnakeCase_examples)
  from a b c d e 2 3 4 5 6 show ?thesis by blast
qed

subsection \<open>The payload of createRecording\<close>

lemma byte_number_range: "\<exists>x. byte_number b = JNum x \<and> x = real (unat b) \<and> 0 \<le> x \<and> x \<le> 255"
proof -
  have "unat b < 2 ^ LENGTH(8)" by (rule unsigned_less)
  then have "unat b \<le> 255" by simp
  then have "real (unat b) \<le> real 255" by (simp only: of_nat_le_iff)
  moreover have "0 \<le> real (unat b)" by (rule of_nat_0_le_iff)
  moreover have "byte_number b = JNum (real (unat b))" by (rule byte_number_def)
  ultimately show ?thesis by simp
qed

lemma byte_number_inj: "inj byte_number"
proof (rule injI)
  fix x y :: "8 word"
  assume "byte_number x = byte_number y"
  then have "real (unat x) = real (unat y)"
    unfolding byte_number_def by (simp only: jsval.inject)
  then have "unat x = unat y" by (simp only: of_nat_eq_iff)
  then show "x = y" by (simp only: word_unat_eq_iff)
qed

lemma map_byte_number_inj: "map byte_number xs = map byte_number ys \<Longrightarrow> xs = ys"
  using byte_number_inj by (simp only: inj_map_eq_map)

text \<open>
  Claim C10. When \<^verbatim>\<open>createRecording\<close> is called with an input whose \<^verbatim>\<open>recording\<close> is an
  \<^verbatim>\<open>ArrayBuffer\<close> with the bytes \<open>buf\<close>, the client calls \<^verbatim>\<open>invoke('create_recording', ...)\<close>
  with an object of three properties: \<^verbatim>\<open>recording\<close>, an array as long as the buffer
  whose element \<open>i\<close> is the number of byte \<open>i\<close>, between 0 and 255; and \<^verbatim>\<open>duration\<close> and
  \<^verbatim>\<open>useFusion\<close> as the input has them. No other buffer gives the same array: the bytes
  can be read back from it exactly.
\<close>

theorem createRecording_payload:
  assumes "get_prop input (js ''recording'') = Inr (JArrayBuffer buf)"
  shows "\<exists>arr.
      handler_get (js ''createRecording'') input =
        Invoke (js ''create_recording'')
          (Some (JObject [(js ''recording'', JArray arr),
                          (js ''duration'', field input (js ''duration'')),
                          (js ''useFusion'', field input (js ''useFusion''))]))
    \<and> length arr = length buf
    \<and> (\<forall>i < length buf. \<exists>x. arr ! i = JNum x \<and> x = real (unat (buf ! i)) \<and> 0 \<le> x \<and> x \<le> 255)
    \<and> (\<forall>buf'. array_from_uint8 (JArrayBuffer buf') = Some (JArray arr) \<longrightarrow> buf' = buf)"
proof -
  from assms have defined: "input \<noteq> JUndefined" by auto
  from assms have rec: "field input (js ''recording'') = JArrayBuffer buf"
    by (simp add: field_def)
  have call: "handler_get (js ''createRecording'') input =
        Invoke (js ''create_recording'')
          (Some (JObject [(js ''recording'', JArray (map byte_number buf)),
                          (js ''duration'', field input (js ''duration'')),
                          (js ''useFusion'', field input (js ''useFusion''))]))"
    unfolding handler_get_def Let_def
    by (simp add: defined assms rec prop_and_def toSnakeCase_createRecording)
  have nth: "\<forall>i < length buf. \<exists>x. map byte_number buf ! i = JNum x \<and> x = real (unat (buf ! i)) \<and> 0 \<le> x \<and> x \<le> 255"
    using byte_number_range by simp
  have inj: "\<forall>buf'. array_from_uint8 (JArrayBuffer buf') = Some (JArray (map byte_number buf)) \<longrightarrow> buf' = buf"
    using map_byte_number_inj by simp
  from call nth inj show ?thesis by (intro exI [of _ "map byte_number buf"]) simp
qed

theorem createRecording_payload_witness:
  "handler_get (js ''createRecording'')
     (JObject [(js ''recording'', JArrayBuffer [0x52, 0x49, 0x46, 0xFF]),
               (js ''duration'', JNum 1500),
               (js ''useFusion'', JBool True)]) =
   Invoke (js ''create_recording'')
     (Some (JObject [(js ''recording'', JArray [JNum 82, JNum 73, JNum 70, JNum 255]),
                     (js ''duration'', JNum 1500),
                     (js ''useFusion'', JBool True)]))"
proof -
  let ?input = "JObject [(js ''recording'', JArrayBuffer [0x52, 0x49, 0x46, 0xFF]),
               (js ''duration'', JNum 1500),
               (js ''useFusion'', JBool True)]"
  have pre: "get_prop ?input (js ''recording'') = Inr (JArrayBuffer [0x52, 0x49, 0x46, 0xFF])"
    by (simp add: js_def)
  have dur: "field ?input (js ''duration'') = JNum 1500"
    by (simp add: field_def js_def)
  have fus: "field ?input (js ''useFusion'') = JBool True"
    by (simp add: field_def js_def)
  from createRecording_payload [OF pre] obtain arr where
    call: "handler_get (js ''createRecording'') ?input =
        Invoke (js ''create_recording'')
          (Some (JObject [(js ''recording'', JArray arr),
                          (js ''duration'', field ?input (js ''duration'')),
                          (js ''useFusion'', field ?input (js ''useFusion''))]))"
    and len: "length arr = length [0x52, 0x49, 0x46, 0xFF :: 8 word]"
    and nth: "\<forall>i < length [0x52, 0x49, 0x46, 0xFF :: 8 word].
       \<exists>x. arr ! i = JNum x \<and> x = real (unat ([0x52, 0x49, 0x46, 0xFF :: 8 word] ! i)) \<and> 0 \<le> x \<and> x \<le> 255"
    by blast
  from len obtain a b c d where arr: "arr = [a, b, c, d]"
    by (auto simp: length_Suc_conv numeral_eq_Suc)
  from nth have "arr ! 0 = JNum 82" "arr ! 1 = JNum 73" "arr ! 2 = JNum 70" "arr ! 3 = JNum 255"
    by (simp_all add: nth_Cons')
  with arr have "arr = [JNum 82, JNum 73, JNum 70, JNum 255]" by simp
  with call dur fus show ?thesis by simp
qed

section \<open>Properties of the connection manager\<close>

lemma distinct_live_map:
  assumes "\<And>c. conn_name (f c) = conn_name c" and "\<And>c. live (f c) \<Longrightarrow> live c"
    and "distinct (map conn_name (filter live cs))"
  shows "distinct (map conn_name (filter live (map f cs)))"
  using assms(3)
proof (induction cs)
  case Nil
  then show ?case by simp
next
  case (Cons c cs)
  have sub: "conn_name ` {x \<in> set (map f cs). live x} \<subseteq> conn_name ` {x \<in> set cs. live x}"
  proof
    fix n assume "n \<in> conn_name ` {x \<in> set (map f cs). live x}"
    then obtain y where "y \<in> set cs" "live (f y)" "n = conn_name (f y)" by auto
    then have "y \<in> {x \<in> set cs. live x}" "n = conn_name y"
      using assms(1,2) by simp_all
    then show "n \<in> conn_name ` {x \<in> set cs. live x}" by blast
  qed
  show ?case
  proof (cases "live (f c)")
    case True
    then have lc: "live c" by (rule assms(2))
    with Cons.prems have notin: "conn_name c \<notin> conn_name ` {x \<in> set cs. live x}"
      and d: "distinct (map conn_name (filter live cs))" by auto
    from notin sub have "conn_name (f c) \<notin> conn_name ` {x \<in> set (map f cs). live x}"
      by (auto simp: assms(1))
    with True Cons.IH [OF d] show ?thesis by simp
  next
    case False
    have "distinct (map conn_name (filter live cs))"
      using Cons.prems by (cases "live c") simp_all
    with False Cons.IH show ?thesis by simp
  qed
qed


lemma disconnect_invariant: "one_live_per_name s \<Longrightarrow> one_live_per_name (disconnect n s)"
  unfolding one_live_per_name_def disconnect_def
  by (simp, rule distinct_live_map) (simp_all add: conn_name_def close_connection_def live_def split: if_splits)

lemma handshake_invariant: "one_live_per_name s \<Longrightarrow> one_live_per_name (handshake n a s)"
  unfolding one_live_per_name_def handshake_def
  by (simp, rule distinct_live_map) (simp_all add: conn_name_def live_def split: if_splits)

lemma transport_lost_invariant: "one_live_per_name s \<Longrightarrow> one_live_per_name (transport_lost n s)"
  unfolding one_live_per_name_def transport_lost_def
  by (simp, rule distinct_live_map) (simp_all add: conn_name_def live_def split: if_splits)

lemma retry_invariant: "one_live_per_name s \<Longrightarrow> one_live_per_name (retry k n r s)"
  unfolding one_live_per_name_def retry_def
  by (simp, rule distinct_live_map) (simp_all add: conn_name_def live_def split: if_splits)

lemma discover_invariant: "one_live_per_name s \<Longrightarrow> one_live_per_name (discover n ts s)"
  unfolding one_live_per_name_def discover_def by simp


lemma live_named_disconnect: "live_named n (disconnect n s) = []"
proof -
  have "\<not> (live d \<and> conn_name d = n)"
    if "d \<in> set (connections (disconnect n s))" for d
  proof -
    from that have "d \<in> (\<lambda>c. if conn_name c = n \<and> live c then close_connection c else c) ` set (connections s)"
      by (simp add: disconnect_def)
    then obtain c where d: "d = (if conn_name c = n \<and> live c then close_connection c else c)"
      by (rule imageE)
    show ?thesis
      by (cases "conn_name c = n \<and> live c")
        (auto simp add: d close_connection_def live_def conn_name_def)
  qed
  then show ?thesis
    unfolding live_named_def filter_empty_conv by blast
qed

lemma spawn_invariant:
  "one_live_per_name s \<Longrightarrow> live_named (pc_name cfg) s = [] \<Longrightarrow> one_live_per_name (spawn cfg b s)"
  unfolding one_live_per_name_def spawn_def live_named_def
  by (auto simp: filter_empty_conv conn_name_def live_def)

lemma connect_steps_invariant:
  assumes "one_live_per_name s"
  shows "\<forall>x \<in> set (connect_steps cfg b a s). one_live_per_name x"
proof -
  let ?s1 = "disconnect (pc_name cfg) s"
  let ?s2 = "spawn cfg b ?s1"
  have 1: "one_live_per_name ?s1" using assms by (rule disconnect_invariant)
  have 2: "one_live_per_name ?s2"
    using 1 live_named_disconnect by (rule spawn_invariant)
  have 3: "one_live_per_name (handshake (pc_name cfg) a ?s2)"
    using 2 by (rule handshake_invariant)
  show ?thesis using 1 2 3 by (simp add: connect_steps_def Let_def)
qed


lemma action_steps_invariant:
  "one_live_per_name s \<Longrightarrow> \<forall>x \<in> set (action_steps a s). one_live_per_name x"
  by (cases a) (simp_all add: connect_steps_invariant disconnect_invariant
      transport_lost_invariant retry_invariant discover_invariant)

lemma action_steps_nonempty: "action_steps a s \<noteq> []"
  by (cases a) (simp_all add: connect_steps_def Let_def)

lemma trace_invariant:
  "one_live_per_name s \<Longrightarrow> \<forall>x \<in> set (trace s as). one_live_per_name x"
proof (induction as arbitrary: s)
  case Nil
  then show ?case by simp
next
  case (Cons a as)
  have steps: "\<forall>x \<in> set (action_steps a s). one_live_per_name x"
    using Cons.prems by (rule action_steps_invariant)
  have "last (action_steps a s) \<in> set (action_steps a s)"
    using action_steps_nonempty by (rule last_in_set)
  with steps have "one_live_per_name (last (action_steps a s))" by blast
  then have rest: "\<forall>x \<in> set (trace (last (action_steps a s)) as). one_live_per_name x"
    by (rule Cons.IH)
  have mid: "\<forall>x \<in> set (butlast (action_steps a s)). one_live_per_name x"
    using steps in_set_butlastD by fast
  show ?case using Cons.prems rest mid by (simp add: ball_Un)
qed

lemma initial_invariant: "one_live_per_name (initial l)"
  by (simp add: one_live_per_name_def initial_def)

lemma registry_disconnect: "registry (disconnect n s) (Provider n, t) = None"
  by (simp add: disconnect_def prune_def)




lemma live_named_connect:
  "live_named (pc_name cfg) (connect cfg started acknowledged s) =
     (if started \<and> acknowledged
      then [\<lparr>conn_config = cfg, conn_state = Ready, conn_failure = None, conn_attempts = 0\<rparr>]
      else [])"
proof -
  define n where "n = pc_name cfg"
  define P where "P = (\<lambda>c. live c \<and> conn_name c = n)"
  define h where "h = (\<lambda>c. if conn_name c = n \<and> conn_state c = Connecting
                   then (if acknowledged then c\<lparr>conn_state := Ready\<rparr>
                         else c\<lparr>conn_state := Closed, conn_failure := Some HandshakeFailed\<rparr>)
                   else c)"
  define old where "old = connections (disconnect n s)"
  define new where "new = \<lparr>conn_config = cfg,
            conn_state = (if started then Connecting else Closed),
            conn_failure = (if started then None else Some ProviderUnavailable),
            conn_attempts = 0\<rparr>"
  have keep: "\<not> P (h c)" if "\<not> P c" for c
    using that unfolding P_def h_def live_def conn_name_def
    by (cases "conn_state c = Closed") simp_all
  have "\<not> P c" if "c \<in> set old" for c
    using live_named_disconnect [of n s] that
    unfolding live_named_def filter_empty_conv old_def P_def by blast
  then have "\<forall>c \<in> set old. \<not> P (h c)"
    using keep by blast
  then have 1: "filter P (map h old) = []"
    unfolding filter_empty_conv by simp
  have 2: "filter P [h new] =
     (if started \<and> acknowledged
      then [\<lparr>conn_config = cfg, conn_state = Ready, conn_failure = None, conn_attempts = 0\<rparr>]
      else [])"
    by (simp add: P_def h_def new_def n_def live_def conn_name_def)
  have "connections (connect cfg started acknowledged s) = map h old @ [h new]"
    by (simp add: connect_def connect_steps_def Let_def handshake_def spawn_def
        h_def old_def new_def n_def)
  then have "live_named n (connect cfg started acknowledged s) = filter P (map h old) @ filter P [h new]"
    unfolding live_named_def P_def by (simp only: filter_append)
  with 1 2 show ?thesis unfolding n_def by (simp only: append_Nil)
qed

lemma at_most_one_live_named:
  assumes "one_live_per_name s"
  shows "length (live_named n s) \<le> 1"
proof -
  have "length (filter (\<lambda>c. live c \<and> conn_name c = n) cs) \<le> 1"
    if "distinct (map conn_name (filter live cs))" for cs
    using that
  proof (induction cs)
    case Nil
    then show ?case by simp
  next
    case (Cons c cs)
    show ?case
    proof (cases "live c \<and> conn_name c = n")
      case True
      with Cons.prems have "n \<notin> conn_name ` set (filter live cs)" by auto
      then have "filter (\<lambda>c. live c \<and> conn_name c = n) cs = []"
        unfolding filter_empty_conv by auto
      with True show ?thesis by simp
    next
      case False
      have "distinct (map conn_name (filter live cs))"
        using Cons.prems by (cases "live c") simp_all
      with Cons.IH False show ?thesis by auto
    qed
  qed
  with assms show ?thesis
    unfolding one_live_per_name_def live_named_def by blast
qed

lemma trace_nonempty: "trace s as \<noteq> []"
  by (cases as) simp_all

lemma run_in_trace: "run s as \<in> set (trace s as)"
  unfolding run_def using trace_nonempty by (rule last_in_set)

lemma connect_steps_last:
  "connect_steps cfg started acknowledged s =
     [disconnect (pc_name cfg) s, spawn cfg started (disconnect (pc_name cfg) s),
      connect cfg started acknowledged s]"
  by (simp add: connect_def connect_steps_def Let_def)

lemma example_connections:
  "connections (run (initial Map.empty) example_actions) =
     [\<lparr>conn_config = filesystem_config, conn_state = Ready, conn_failure = None, conn_attempts = 0\<rparr>]"
  by (simp add: run_def example_actions_def connect_steps_def Let_def initial_def
      disconnect_def spawn_def handshake_def discover_def conn_name_def live_def
      filesystem_config_def)

lemma example_registry:
  "registry (run (initial Map.empty) example_actions) (Provider ''filesystem'', ''read_file'') = Some read_file_tool"
  by (simp add: run_def example_actions_def connect_steps_def Let_def initial_def
      disconnect_def spawn_def handshake_def discover_def conn_name_def live_def
      filesystem_config_def read_file_tool_def)

text \<open>
  Claim C8. Let \<open>s\<close> be the state of the connection manager after any actions from its
  start state. In every state the manager has been in on the way, also between the steps
  of a connect, every provider name has at most one live connection. A connect under the
  name of \<open>cfg\<close> passes through three states: the old connection of the name
  disconnected, where no live connection has that name; the new process spawned; and the
  handshake made. In each of them every name has at most one live connection, and in the
  last the only live connection of the name, if there is one, is the new one with the new
  configuration. After \<open>disconnect n\<close> the registry has no entry in the namespace of
  provider \<open>n\<close>.
\<close>

theorem one_live_connection_per_name:
  "let s = run (initial local_tools) as in
     (\<forall>x \<in> set (trace (initial local_tools) as). \<forall>n. length (live_named n x) \<le> 1)
   \<and> connect_steps cfg started acknowledged s =
        [disconnect (pc_name cfg) s, spawn cfg started (disconnect (pc_name cfg) s),
         connect cfg started acknowledged s]
   \<and> (\<forall>x \<in> set (connect_steps cfg started acknowledged s). \<forall>n. length (live_named n x) \<le> 1)
   \<and> live_named (pc_name cfg) (disconnect (pc_name cfg) s) = []
   \<and> live_named (pc_name cfg) (connect cfg started acknowledged s) =
        (if started \<and> acknowledged
         then [\<lparr>conn_config = cfg, conn_state = Ready, conn_failure = None, conn_attempts = 0\<rparr>]
         else [])
   \<and> (\<forall>n t. registry (disconnect n s) (Provider n, t) = None)"
proof -
  define s where "s = run (initial local_tools) as"
  have all: "\<forall>x \<in> set (trace (initial local_tools) as). one_live_per_name x"
    using initial_invariant by (rule trace_invariant)
  then have 1: "\<forall>x \<in> set (trace (initial local_tools) as). \<forall>n. length (live_named n x) \<le> 1"
    using at_most_one_live_named by blast
  have "one_live_per_name s"
    using all run_in_trace unfolding s_def by blast
  then have "\<forall>x \<in> set (connect_steps cfg started acknowledged s). one_live_per_name x"
    by (rule connect_steps_invariant)
  then have 2: "\<forall>x \<in> set (connect_steps cfg started acknowledged s). \<forall>n. length (live_named n x) \<le> 1"
    using at_most_one_live_named by blast
  have 3: "\<forall>n t. registry (disconnect n s) (Provider n, t) = None"
    using registry_disconnect by blast
  show ?thesis
    unfolding Let_def s_def [symmetric]
    using 1 2 3 connect_steps_last live_named_disconnect live_named_connect by (intro conjI)
qed

theorem one_live_connection_per_name_witness:
  "live_named ''filesystem'' (run (initial Map.empty) example_actions) =
     [\<lparr>conn_config = filesystem_config, conn_state = Ready, conn_failure = None, conn_attempts = 0\<rparr>]
   \<and> registry (run (initial Map.empty) example_actions) (Provider ''filesystem'', ''read_file'') = Some read_file_tool
   \<and> live_named ''filesystem'' (disconnect ''filesystem'' (run (initial Map.empty) example_actions)) = []
   \<and> length (live_named ''filesystem''
        (spawn filesystem_reconfigured True (disconnect ''filesystem'' (run (initial Map.empty) example_actions)))) \<le> 1
   \<and> live_named ''filesystem'' (connect filesystem_reconfigured True True (run (initial Map.empty) example_actions)) =
     [\<lparr>conn_config = filesystem_reconfigured, conn_state = Ready, conn_failure = None, conn_attempts = 0\<rparr>]
   \<and> registry (disconnect ''filesystem'' (run (initial Map.empty) example_actions)) (Provider ''filesystem'', ''read_file'') = None"
proof -
  define s where "s = run (initial Map.empty) example_actions"
  have name: "pc_name filesystem_reconfigured = ''filesystem''"
    by (simp add: filesystem_reconfigured_def filesystem_config_def)
  note inst = one_live_connection_per_name
    [of Map.empty example_actions filesystem_reconfigured True True, unfolded Let_def name, folded s_def]
  have 1: "live_named ''filesystem'' s =
     [\<lparr>conn_config = filesystem_config, conn_state = Ready, conn_failure = None, conn_attempts = 0\<rparr>]"
    unfolding live_named_def s_def example_connections
    by (simp add: live_def conn_name_def filesystem_config_def)
  have 2: "registry s (Provider ''filesystem'', ''read_file'') = Some read_file_tool"
    unfolding s_def by (rule example_registry)
  have mem: "spawn filesystem_reconfigured True (disconnect ''filesystem'' s)
      \<in> set (connect_steps filesystem_reconfigured True True s)"
    using inst by simp
  have 4: "length (live_named ''filesystem'' (spawn filesystem_reconfigured True (disconnect ''filesystem'' s))) \<le> 1"
    using inst mem by blast
  from 1 2 4 inst show ?thesis
    unfolding s_def [symmetric] by simp
qed

end
